theory Spec2Isabelle
  imports Main
begin

section \<open>JavaScript numbers\<close>

text \<open>
  A JavaScript number is an IEEE 754 double. The numbers this program computes with
  (column numbers, row numbers, the value of a digit run) are integer-valued or
  infinite. \<open>Num n\<close> is the finite double whose value is the integer \<open>n\<close>; only
  integers that are doubles occur under \<open>Num\<close>.

  An arithmetic operation gives the double nearest to the exact result, ties going to
  the even significand. \<open>roundInt\<close> does this for an exact integer result, with 53
  significant bits; \<open>roundToDouble\<close> adds the overflow to an infinity, which happens
  from \<open>2 ^ 1024 - 2 ^ 970\<close> on, where \<open>roundInt\<close> reaches \<open>2 ^ 1024\<close>.
  \<open>floorDiv26 x\<close> is \<open>Math.floor(x / 26)\<close> for an integer-valued double \<open>x \<ge> 0\<close>:
  the exact quotient is rounded to 53 significant bits, then floored.
\<close>

datatype number = Num int | PosInfinity | NegInfinity

function bitLength :: "int \<Rightarrow> nat" where
  "bitLength n = (if n \<le> 0 then 0 else Suc (bitLength (n div 2)))"
  by pat_completeness auto
termination
  by (relation "measure nat") auto

declare bitLength.simps [simp del]

definition roundNearestEven :: "int \<Rightarrow> int \<Rightarrow> int" where
  "roundNearestEven a b =
     (if 2 * (a mod b) > b \<or> (2 * (a mod b) = b \<and> odd (a div b)) then a div b + 1 else a div b)"

definition roundInt :: "int \<Rightarrow> int" where
  "roundInt x =
     (if \<bar>x\<bar> \<le> 2 ^ 53 then x
      else sgn x * (roundNearestEven \<bar>x\<bar> (2 ^ (bitLength \<bar>x\<bar> - 53))
                     * 2 ^ (bitLength \<bar>x\<bar> - 53)))"

definition roundToDouble :: "int \<Rightarrow> number" where
  "roundToDouble x =
     (if 2 ^ 1024 \<le> roundInt x then PosInfinity
      else if roundInt x \<le> - (2 ^ 1024) then NegInfinity
      else Num (roundInt x))"

text \<open>\<open>num * k\<close> and \<open>num + k\<close> for a finite integer \<open>k\<close> (\<open>k > 0\<close> in the product).\<close>

fun numTimes :: "number \<Rightarrow> int \<Rightarrow> number" where
  "numTimes (Num a) k = roundToDouble (a * k)"
| "numTimes PosInfinity k = PosInfinity"
| "numTimes NegInfinity k = NegInfinity"

fun numPlus :: "number \<Rightarrow> int \<Rightarrow> number" where
  "numPlus (Num a) k = roundToDouble (a + k)"
| "numPlus PosInfinity k = PosInfinity"
| "numPlus NegInfinity k = NegInfinity"

definition floorDiv26 :: "int \<Rightarrow> int" where
  "floorDiv26 x =
     (if x div 26 \<le> 0 then 0
      else if 53 \<le> bitLength (x div 26)
      then roundNearestEven x (26 * 2 ^ (bitLength (x div 26) - 53))
             * 2 ^ (bitLength (x div 26) - 53)
      else roundNearestEven (x * 2 ^ (53 - bitLength (x div 26))) 26
             div 2 ^ (53 - bitLength (x div 26)))"

section \<open>Coordinate algebra (taskpane.ts)\<close>

text \<open>
  Strings are lists of 8-bit code units (Latin-1), which covers every character the
  column arithmetic produces or inspects.

  \<^verbatim>\<open>
  function columnToNumber(col: string): number {
    let num = 0;
    for (let i = 0; i < col.length; i++) {
      num = num * 26 + (col.charCodeAt(i) - 64);
    }
    return num;
  }
  \<close>
  The difference \<open>col.charCodeAt(i) - 64\<close> is exact; the product and the sum are
  rounded.
\<close>

definition charCodeAt :: "char \<Rightarrow> int" where
  "charCodeAt c = int (of_char c)"

definition fromCharCode :: "int \<Rightarrow> char" where
  "fromCharCode k = char_of (nat k)"

definition columnToNumber :: "string \<Rightarrow> number" where
  "columnToNumber col =
     foldl (\<lambda>num c. numPlus (numTimes num 26) (charCodeAt c - 64)) (Num 0) col"

text \<open>
  \<^verbatim>\<open>
  function getColumnLetter(num: number): string {
    let letter = '';
    while (num > 0) {
      const mod = (num - 1) % 26;
      letter = String.fromCharCode(65 + mod) + letter;
      num = Math.floor((num - 1) / 26);
    }
    return letter;
  }
  \<close>
  The argument is an integer-valued finite double, given by its integer value. The loop
  is the recursion \<open>getColumnLetter_loop\<close> on the pair of mutable variables
  \<open>(num, letter)\<close>, whose value \<open>None\<close> stands for a loop that never ends. Inside
  the loop \<open>num \<ge> 1\<close>, so the difference \<open>num - 1\<close> is not negative: it is rounded,
  \<open>%\<close> is the exact remainder, and the quotient is rounded before the floor.
\<close>

partial_function (option) getColumnLetter_loop :: "int \<Rightarrow> string \<Rightarrow> string option" where
  "getColumnLetter_loop num letter =
     (if num > 0
      then getColumnLetter_loop (floorDiv26 (roundInt (num - 1)))
             (fromCharCode (65 + roundInt (num - 1) mod 26) # letter)
      else Some letter)"

declare getColumnLetter_loop.simps [code]

definition getColumnLetter :: "int \<Rightarrow> string option" where
  "getColumnLetter num = getColumnLetter_loop num []"

text \<open>
  The start cell of a selection, from \<open>extractSelectionData\<close>, where \<open>startCell\<close> is
  the part of the selection's address before the colon:
  \<^verbatim>\<open>
  const startCol = startCell.match(/[A-Z]+/)?.[0] || 'A';
  const startRow = parseInt(startCell.match(/\d+/)?.[0] || '1');
  \<close>
  \<open>s.match(/[class]+/)\<close> without the global flag finds the leftmost, longest run of
  characters of the class (\<open>firstMatch\<close>), and is \<open>null\<close> when the string has no such
  character; \<open>parseInt\<close> of a non-empty run of decimal digits is the double nearest
  to its decimal value \<open>decimalValue\<close>.
\<close>

definition isUpperAZ :: "char \<Rightarrow> bool" where
  "isUpperAZ c = (65 \<le> charCodeAt c \<and> charCodeAt c \<le> 90)"

definition isDigit :: "char \<Rightarrow> bool" where
  "isDigit c = (48 \<le> charCodeAt c \<and> charCodeAt c \<le> 57)"

definition firstMatch :: "(char \<Rightarrow> bool) \<Rightarrow> string \<Rightarrow> string option" where
  "firstMatch cls s =
     (let run = takeWhile cls (dropWhile (\<lambda>c. \<not> cls c) s)
      in if run = [] then None else Some run)"

definition decimalValue :: "string \<Rightarrow> int" where
  "decimalValue ds = foldl (\<lambda>n c. n * 10 + (charCodeAt c - 48)) 0 ds"

definition parseInt :: "string \<Rightarrow> number" where
  "parseInt ds = roundToDouble (decimalValue ds)"

definition startCol :: "string \<Rightarrow> string" where
  "startCol startCell = (case firstMatch isUpperAZ startCell of Some m \<Rightarrow> m | None \<Rightarrow> ''A'')"

definition startRow :: "string \<Rightarrow> number" where
  "startRow startCell =
     parseInt (case firstMatch isDigit startCell of Some m \<Rightarrow> m | None \<Rightarrow> ''1'')"

section \<open>Strings (sheet.ts, range.ts)\<close>

text \<open>
  \<open>toLowerCase\<close> on code units below 256: the letters A to Z and the Latin-1 capitals
  (192 to 222 except the multiplication sign 215) move up by 32, every other code unit
  stays. \<open>numberToString\<close> is the decimal rendering that a template literal gives a
  non-negative integer counter.
\<close>

definition toLowerCaseChar :: "char \<Rightarrow> char" where
  "toLowerCaseChar c =
     (let n = (of_char c :: nat)
      in if (65 \<le> n \<and> n \<le> 90) \<or> (192 \<le> n \<and> n \<le> 222 \<and> n \<noteq> 215)
         then char_of (n + 32) else c)"

definition toLowerCase :: "string \<Rightarrow> string" where
  "toLowerCase s = map toLowerCaseChar s"

fun numberToString :: "nat \<Rightarrow> string" where
  "numberToString n =
     (if n < 10 then [char_of (48 + n)]
      else numberToString (n div 10) @ [char_of (48 + n mod 10)])"

declare numberToString.simps [simp del]

text \<open>
  \<^verbatim>\<open>range.address.includes('!') ? range.address.split('!')[1] : range.address\<close>:
  element 1 of the split is the text between the first and the second separator.
\<close>

definition addressOnly :: "string \<Rightarrow> string" where
  "addressOnly a =
     (if CHR ''!'' \<in> set a
      then takeWhile (\<lambda>c. c \<noteq> CHR ''!'') (tl (dropWhile (\<lambda>c. c \<noteq> CHR ''!'') a))
      else a)"

section \<open>Data model (types.ts)\<close>

text \<open>
  A cell value is \<open>string | number | boolean | null\<close>. The library only copies cell
  values and never computes with them; the number payload is an integer here.
\<close>

datatype cell_value = CellString string | CellNumber int | CellBoolean bool | CellNull

record CapturedRange =
  address :: string
  sourceSheet :: string
  values' :: "cell_value list list"
  formulas :: "string list list"
  rowCount :: int
  columnCount :: int

datatype sheet_position = Before | After | End

record CreateSheetOptions =
  name :: "string option"
  position :: "sheet_position option"

text \<open>
  \<^verbatim>\<open>interface AutomationResult<T> { success: boolean; data?: T; error?: string; }\<close>
\<close>

record 'a AutomationResult =
  success :: bool
  data :: "'a option"
  error :: "string option"

record CopyToNewSheetResult =
  captured :: CapturedRange
  newSheetName :: string
  pastedAddress :: string

record CopyToNewSheetOptions =
  sheetName :: "string option"
  valuesOnly :: "bool option"
  activateNewSheet :: "bool option"

record DuplicateResult =
  sourceAddress :: string
  targetAddress :: string

section \<open>The host: Office.js request contexts\<close>

text \<open>
  The spreadsheet host is outside the repository. It is a parameter of every function
  below: a record of what the library asks of it, over an arbitrary host state
  \<open>'h\<close>. The library talks to the host the Office.js way: calls on proxy objects
  (\<open>load\<close>, \<open>worksheets.add\<close>, assignments to \<open>position\<close>, \<open>values\<close>,
  \<open>formulas\<close>, \<open>activate\<close>) are queued as commands on the request context, and
  \<open>context.sync()\<close> hands the queued batch to the host, which runs it and either
  succeeds or throws. A \<open>sync\<close> with nothing queued resolves without a round trip.
  Properties loaded by a batch are read from the host state that the batch leaves.

  A thrown value is an \<open>Error\<close> instance with its message, or any other value: one
  that \<open>String(value)\<close> converts, kept as the string it gives, or one that has no
  string form (an object without \<open>toString\<close> and \<open>valueOf\<close>, say), for which
  \<open>String(value)\<close> throws a \<open>TypeError\<close>.
\<close>

datatype thrown = ErrorInstance string | OtherValue string | NoStringForm

datatype sheet_ref = ActiveWorksheet | AddedWorksheet "string option"

datatype command =
    LoadSelectedRange
  | LoadSheetName sheet_ref
  | LoadSheetPosition sheet_ref
  | LoadSheetNames
  | AddWorksheet "string option"
  | SetPosition sheet_ref int
  | SetValues sheet_ref string "cell_value list list"
  | SetFormulas sheet_ref string "string list list"
  | Activate sheet_ref

record loaded_range =
  rangeAddress :: string
  rangeValues :: "cell_value list list"
  rangeFormulas :: "string list list"
  rangeRowCount :: int
  rangeColumnCount :: int

record 'h host =
  hostSync :: "'h \<Rightarrow> command list \<Rightarrow> thrown option \<times> 'h"
  selectedRange :: "'h \<Rightarrow> loaded_range"
  activeSheetName :: "'h \<Rightarrow> string"
  activeSheetPosition :: "'h \<Rightarrow> int"
  sheetNames :: "'h \<Rightarrow> string list"

record 'h request_context =
  hostState :: 'h
  pending :: "command list"
  synced :: "command list list"

text \<open>
  What an asynchronous function does: it returns a value, it throws, or it never
  settles. The request context is kept in the first two cases, so that the batches
  handed to the host so far (\<open>synced\<close>) stay observable.
\<close>

datatype ('a, 'h) outcome =
    Returns 'a "'h request_context"
  | Throws thrown "'h request_context"
  | Diverges

definition await ::
  "('a, 'h) outcome \<Rightarrow> ('a \<Rightarrow> 'h request_context \<Rightarrow> ('b, 'h) outcome) \<Rightarrow> ('b, 'h) outcome" where
  "await m k = (case m of Returns x ctx \<Rightarrow> k x ctx | Throws e ctx \<Rightarrow> Throws e ctx | Diverges \<Rightarrow> Diverges)"

text \<open>
  The batches that have been handed to the host when a call settles, and the commands
  still queued then.
\<close>

definition batchesOf :: "('a, 'h) outcome \<Rightarrow> command list list option" where
  "batchesOf m =
     (case m of Returns x ctx \<Rightarrow> Some (synced ctx) | Throws e ctx \<Rightarrow> Some (synced ctx)
      | Diverges \<Rightarrow> None)"

definition queuedOf :: "('a, 'h) outcome \<Rightarrow> command list option" where
  "queuedOf m =
     (case m of Returns x ctx \<Rightarrow> Some (pending ctx) | Throws e ctx \<Rightarrow> Some (pending ctx)
      | Diverges \<Rightarrow> None)"

definition queue :: "command \<Rightarrow> 'h request_context \<Rightarrow> 'h request_context" where
  "queue cmd ctx = ctx\<lparr>pending := pending ctx @ [cmd]\<rparr>"

definition sync :: "'h host \<Rightarrow> 'h request_context \<Rightarrow> (unit, 'h) outcome" where
  "sync host ctx =
     (if pending ctx = [] then Returns () ctx
      else case hostSync host (hostState ctx) (pending ctx) of
             (None, h') \<Rightarrow>
               Returns () \<lparr>hostState = h', pending = [], synced = synced ctx @ [pending ctx]\<rparr>
           | (Some e, h') \<Rightarrow>
               Throws e \<lparr>hostState = h', pending = [], synced = synced ctx @ [pending ctx]\<rparr>)"

text \<open>
  \<open>Excel.run(batch)\<close> makes a fresh request context, runs the batch on it, syncs once
  more when the batch has returned, and resolves to the batch's value.
\<close>

definition excelRun ::
  "'h host \<Rightarrow> 'h \<Rightarrow> ('h request_context \<Rightarrow> ('a, 'h) outcome) \<Rightarrow> ('a, 'h) outcome" where
  "excelRun host h batch =
     await (batch \<lparr>hostState = h, pending = [], synced = []\<rparr>)
       (\<lambda>result ctx. await (sync host ctx) (\<lambda>_ ctx'. Returns result ctx'))"


section \<open>Range primitives (range.ts)\<close>

text \<open>
  \<^verbatim>\<open>
  export async function captureSelection(context): Promise<CapturedRange> {
    const range = context.workbook.getSelectedRange();
    const sheet = context.workbook.worksheets.getActiveWorksheet();
    range.load(['address', 'values', 'formulas', 'rowCount', 'columnCount']);
    sheet.load('name');
    await context.sync();
    const addressOnly = range.address.includes('!')
      ? range.address.split('!')[1] : range.address;
    return { address: addressOnly, sourceSheet: sheet.name, values: range.values,
             formulas: range.formulas, rowCount: range.rowCount,
             columnCount: range.columnCount };
  }
  \<close>
\<close>

definition captureSelection :: "'h host \<Rightarrow> 'h request_context \<Rightarrow> (CapturedRange, 'h) outcome" where
  "captureSelection host context =
     await (sync host (queue (LoadSheetName ActiveWorksheet) (queue LoadSelectedRange context)))
       (\<lambda>_ ctx.
          let range = selectedRange host (hostState ctx)
          in Returns
               \<lparr>address = addressOnly (rangeAddress range),
                sourceSheet = activeSheetName host (hostState ctx),
                values' = rangeValues range,
                formulas = rangeFormulas range,
                rowCount = rangeRowCount range,
                columnCount = rangeColumnCount range\<rparr> ctx)"

text \<open>
  \<^verbatim>\<open>
  export async function pasteRange(context, captured, targetSheet,
      targetAddress?: string, valuesOnly: boolean = false): Promise<void> {
    const address = targetAddress || captured.address;
    const range = targetSheet.getRange(address);
    if (valuesOnly) { range.values = captured.values; }
    else { range.formulas = captured.formulas; }
    await context.sync();
  }
  \<close>
  An optional argument is an \<open>option\<close>; \<open>||\<close> falls back on \<open>undefined\<close> and on
  the empty string alike.
\<close>

definition pasteRange ::
  "'h host \<Rightarrow> 'h request_context \<Rightarrow> CapturedRange \<Rightarrow> sheet_ref \<Rightarrow> string option \<Rightarrow> bool option
     \<Rightarrow> (unit, 'h) outcome" where
  "pasteRange host context capturedRange targetSheet targetAddr valuesOnlyArg =
     (let valuesOnlyFlag = (case valuesOnlyArg of None \<Rightarrow> False | Some b \<Rightarrow> b);
          addr = (case targetAddr of
                    None \<Rightarrow> address capturedRange
                  | Some a \<Rightarrow> if a = [] then address capturedRange else a)
      in if valuesOnlyFlag
         then sync host (queue (SetValues targetSheet addr (values' capturedRange)) context)
         else sync host (queue (SetFormulas targetSheet addr (formulas capturedRange)) context))"

section \<open>Sheet primitives (sheet.ts)\<close>

text \<open>
  \<^verbatim>\<open>
  export async function createSheet(context, options: CreateSheetOptions = {}) {
    const sheets = context.workbook.worksheets;
    const activeSheet = sheets.getActiveWorksheet();
    activeSheet.load('position');
    await context.sync();
    const newSheet = sheets.add(options.name);
    if (options.position === 'before') {
      newSheet.position = activeSheet.position;
    } else if (options.position === 'end') {
    } else {
      newSheet.position = activeSheet.position + 1;
    }
    await context.sync();
    return newSheet;
  }
  \<close>
\<close>

definition createSheet ::
  "'h host \<Rightarrow> 'h request_context \<Rightarrow> CreateSheetOptions \<Rightarrow> (sheet_ref, 'h) outcome" where
  "createSheet host context options =
     await (sync host (queue (LoadSheetPosition ActiveWorksheet) context))
       (\<lambda>_ ctx.
          let activePosition = activeSheetPosition host (hostState ctx);
              newSheet = AddedWorksheet (name options);
              ctx1 = queue (AddWorksheet (name options)) ctx;
              ctx2 = (if position options = Some Before
                      then queue (SetPosition newSheet activePosition) ctx1
                      else if position options = Some End
                      then ctx1
                      else queue (SetPosition newSheet (activePosition + 1)) ctx1)
          in await (sync host ctx2) (\<lambda>_ ctx3. Returns newSheet ctx3))"

text \<open>
  \<^verbatim>\<open>
  export async function generateUniqueSheetName(context, baseName: string) {
    const sheets = context.workbook.worksheets;
    sheets.load('items/name');
    await context.sync();
    const existingNames = new Set(sheets.items.map(s => s.name.toLowerCase()));
    if (!existingNames.has(baseName.toLowerCase())) { return baseName; }
    let counter = 2;
    while (existingNames.has(`${baseName} (${counter})`.toLowerCase())) { counter++; }
    return `${baseName} (${counter})`;
  }
  \<close>
  \<open>candidateName\<close> is the template literal; the \<open>while\<close> loop is
  \<open>generateUniqueSheetName_loop\<close>, whose value \<open>None\<close> stands for a loop that never
  ends.
\<close>

definition candidateName :: "string \<Rightarrow> nat \<Rightarrow> string" where
  "candidateName baseName counter = baseName @ '' ('' @ numberToString counter @ '')''"

partial_function (option) generateUniqueSheetName_loop ::
  "string set \<Rightarrow> string \<Rightarrow> nat \<Rightarrow> nat option" where
  "generateUniqueSheetName_loop existingNames baseName counter =
     (if toLowerCase (candidateName baseName counter) \<in> existingNames
      then generateUniqueSheetName_loop existingNames baseName (counter + 1)
      else Some counter)"

declare generateUniqueSheetName_loop.simps [code]

definition generateUniqueSheetName ::
  "'h host \<Rightarrow> 'h request_context \<Rightarrow> string \<Rightarrow> (string, 'h) outcome" where
  "generateUniqueSheetName host context baseName =
     await (sync host (queue LoadSheetNames context))
       (\<lambda>_ ctx.
          let existingNames = set (map toLowerCase (sheetNames host (hostState ctx)))
          in if toLowerCase baseName \<notin> existingNames then Returns baseName ctx
             else case generateUniqueSheetName_loop existingNames baseName 2 of
                    None \<Rightarrow> Diverges
                  | Some counter \<Rightarrow> Returns (candidateName baseName counter) ctx)"

section \<open>Composed automations (automations.ts)\<close>

text \<open>
  \<^verbatim>\<open>
  try { return await Excel.run(async (context) => { ... }); }
  catch (error) {
    return { success: false,
             error: error instanceof Error ? error.message : String(error) };
  }
  \<close>
\<close>

text \<open>
  \<open>messageOf\<close> is the expression in the \<open>catch\<close> block; it has no value where
  \<open>String(error)\<close> throws. Then the \<open>TypeError\<close> of the conversion leaves the
  \<open>catch\<close> block, and the promise of the automation rejects with it. The message of
  that \<open>TypeError\<close> is the engine's.
\<close>

fun messageOf :: "thrown \<Rightarrow> string option" where
  "messageOf (ErrorInstance m) = Some m"
| "messageOf (OtherValue s) = Some s"
| "messageOf NoStringForm = None"

definition conversionTypeError :: thrown where
  "conversionTypeError = ErrorInstance ''Cannot convert object to primitive value''"

definition catchToResult ::
  "('a AutomationResult, 'h) outcome \<Rightarrow> ('a AutomationResult, 'h) outcome" where
  "catchToResult m =
     (case m of
        Throws e ctx \<Rightarrow>
          (case messageOf e of
             Some msg \<Rightarrow> Returns \<lparr>success = False, data = None, error = Some msg\<rparr> ctx
           | None \<Rightarrow> Throws conversionTypeError ctx)
      | Returns r ctx \<Rightarrow> Returns r ctx
      | Diverges \<Rightarrow> Diverges)"


text \<open>
  The batch of \<open>copySelectionToNewSheet\<close>:
  \<^verbatim>\<open>
  const captured = await captureSelection(context);
  if (captured.rowCount === 0 || captured.columnCount === 0) {
    return { success: false, error: 'No cells selected' };
  }
  const baseName = options.sheetName || `Copy of ${captured.sourceSheet}`;
  const uniqueName = await generateUniqueSheetName(context, baseName);
  const newSheet = await createSheet(context, { name: uniqueName });
  await pasteRange(context, captured, newSheet, captured.address,
                   options.valuesOnly ?? false);
  if (options.activateNewSheet !== false) {
    newSheet.activate();
    await context.sync();
  }
  return { success: true,
           data: { captured, newSheetName: uniqueName, pastedAddress: captured.address } };
  \<close>
\<close>

definition copySelectionToNewSheet_batch ::
  "'h host \<Rightarrow> CopyToNewSheetOptions \<Rightarrow> 'h request_context
     \<Rightarrow> (CopyToNewSheetResult AutomationResult, 'h) outcome" where
  "copySelectionToNewSheet_batch host options context =
     await (captureSelection host context)
       (\<lambda>cap ctx.
          if rowCount cap = 0 \<or> columnCount cap = 0
          then Returns \<lparr>success = False, data = None, error = Some ''No cells selected''\<rparr> ctx
          else
            let baseName = (case sheetName options of
                              None \<Rightarrow> ''Copy of '' @ sourceSheet cap
                            | Some s \<Rightarrow> if s = [] then ''Copy of '' @ sourceSheet cap else s)
            in await (generateUniqueSheetName host ctx baseName)
                 (\<lambda>uniqueName ctx1.
                    await (createSheet host ctx1 \<lparr>name = Some uniqueName, position = None\<rparr>)
                      (\<lambda>newSheet ctx2.
                         await (pasteRange host ctx2 cap newSheet (Some (address cap))
                                  (Some (case valuesOnly options of None \<Rightarrow> False | Some b \<Rightarrow> b)))
                           (\<lambda>_ ctx3.
                              await (if activateNewSheet options \<noteq> Some False
                                     then sync host (queue (Activate newSheet) ctx3)
                                     else Returns () ctx3)
                                (\<lambda>_ ctx4.
                                   Returns
                                     \<lparr>success = True,
                                      data = Some \<lparr>captured = cap, newSheetName = uniqueName,
                                                   pastedAddress = address cap\<rparr>,
                                      error = None\<rparr> ctx4)))))"

definition copySelectionToNewSheet ::
  "'h host \<Rightarrow> 'h \<Rightarrow> CopyToNewSheetOptions
     \<Rightarrow> (CopyToNewSheetResult AutomationResult, 'h) outcome" where
  "copySelectionToNewSheet host h options =
     catchToResult (excelRun host h (copySelectionToNewSheet_batch host options))"

text \<open>
  The batch of \<open>duplicateSelection\<close>:
  \<^verbatim>\<open>
  const captured = await captureSelection(context);
  const sheet = context.workbook.worksheets.getActiveWorksheet();
  await pasteRange(context, captured, sheet, targetAddress, valuesOnly);
  return { success: true, data: { sourceAddress: captured.address, targetAddress } };
  \<close>
\<close>

definition duplicateSelection_batch ::
  "'h host \<Rightarrow> string \<Rightarrow> bool option \<Rightarrow> 'h request_context
     \<Rightarrow> (DuplicateResult AutomationResult, 'h) outcome" where
  "duplicateSelection_batch host target valuesOnlyArg context =
     await (captureSelection host context)
       (\<lambda>cap ctx.
          await (pasteRange host ctx cap ActiveWorksheet (Some target)
                   (Some (case valuesOnlyArg of None \<Rightarrow> False | Some b \<Rightarrow> b)))
            (\<lambda>_ ctx1.
               Returns
                 \<lparr>success = True,
                  data = Some \<lparr>sourceAddress = address cap, targetAddress = target\<rparr>,
                  error = None\<rparr> ctx1))"

definition duplicateSelection ::
  "'h host \<Rightarrow> 'h \<Rightarrow> string \<Rightarrow> bool option \<Rightarrow> (DuplicateResult AutomationResult, 'h) outcome" where
  "duplicateSelection host h target valuesOnlyArg =
     catchToResult (excelRun host h (duplicateSelection_batch host target valuesOnlyArg))"

section \<open>A test double of the host\<close>

text \<open>
  A host to run the library on concrete inputs. Its state is the list of sheet names;
  a batch adds the sheets it names, and fails when \<open>fails\<close> says so. The selection,
  the active sheet's name and its position are fixed.
\<close>

fun addedNames :: "command list \<Rightarrow> string list" where
  "addedNames [] = []"
| "addedNames (AddWorksheet (Some n) # cs) = n # addedNames cs"
| "addedNames (_ # cs) = addedNames cs"

definition testHost ::
  "loaded_range \<Rightarrow> string \<Rightarrow> int \<Rightarrow> (command list \<Rightarrow> thrown option) \<Rightarrow> (string list) host" where
  "testHost sel active pos fails =
     \<lparr>hostSync = (\<lambda>names cmds. (fails cmds, names @ addedNames cmds)),
      selectedRange = (\<lambda>_. sel),
      activeSheetName = (\<lambda>_. active),
      activeSheetPosition = (\<lambda>_. pos),
      sheetNames = (\<lambda>names. names)\<rparr>"

definition selectionB2C3 :: loaded_range where
  "selectionB2C3 =
     \<lparr>rangeAddress = ''Data!B2:C3'',
      rangeValues = [[CellNumber 20, CellString ''x''], [CellBoolean True, CellNull]],
      rangeFormulas = [[''=A1*2'', ''x''], [''TRUE'', []]],
      rangeRowCount = 2,
      rangeColumnCount = 2\<rparr>"

definition emptySelection :: loaded_range where
  "emptySelection =
     \<lparr>rangeAddress = ''Data!A1'', rangeValues = [], rangeFormulas = [],
      rangeRowCount = 0, rangeColumnCount = 0\<rparr>"

definition neverFails :: "command list \<Rightarrow> thrown option" where
  "neverFails cmds = None"


section \<open>Column letters and numbers round-trip\<close>

lemma bitLength_le: "n < 2 ^ k \<Longrightarrow> bitLength n \<le> k"
proof (induction k arbitrary: n)
  case 0
  then show ?case by (subst bitLength.simps) simp
next
  case (Suc k)
  show ?case
  proof (cases "n \<le> 0")
    case True
    then show ?thesis by (subst bitLength.simps) simp
  next
    case False
    from Suc.prems have "n div 2 < 2 ^ k" by simp
    from Suc.IH [OF this] False show ?thesis by (subst bitLength.simps) simp
  qed
qed

lemma roundInt_exact: "\<bar>x\<bar> \<le> 2 ^ 53 \<Longrightarrow> roundInt x = x"
  by (simp add: roundInt_def)

lemma roundToDouble_exact:
  assumes "\<bar>x\<bar> \<le> 2 ^ 53"
  shows "roundToDouble x = Num x"
proof -
  have "(2::int) ^ 53 < 2 ^ 1024" by simp
  with assms have "x < 2 ^ 1024" "- (2 ^ 1024) < x" by linarith+
  then show ?thesis by (simp add: roundToDouble_def roundInt_exact [OF assms])
qed

lemma roundNearestEven_bounds:
  assumes "0 < b"
  shows "a div b \<le> roundNearestEven a b" and "2 * b * roundNearestEven a b \<le> 2 * a + b"
proof -
  show "a div b \<le> roundNearestEven a b" by (simp add: roundNearestEven_def)
  define n where "n = a div b"
  define r where "r = a mod b"
  define p where "p = b * n"
  have a: "a = p + r" by (simp add: n_def r_def p_def)
  have r: "0 \<le> r" using assms by (simp add: r_def)
  show "2 * b * roundNearestEven a b \<le> 2 * a + b"
  proof (cases "2 * r > b \<or> (2 * r = b \<and> odd n)")
    case True
    then have up: "roundNearestEven a b = n + 1" by (simp add: roundNearestEven_def n_def r_def)
    from True have "b \<le> 2 * r" by auto
    moreover have "2 * b * (n + 1) = 2 * p + 2 * b" by (simp add: p_def algebra_simps)
    ultimately have "2 * b * (n + 1) \<le> 2 * a + b" using a by linarith
    with up show ?thesis by simp
  next
    case False
    then have down: "roundNearestEven a b = n" by (simp add: roundNearestEven_def n_def r_def)
    have "2 * b * n = 2 * p" by (simp add: p_def)
    then have "2 * b * n \<le> 2 * a + b" using a r assms by linarith
    with down show ?thesis by simp
  qed
qed

lemma floorDiv26_exact:
  assumes "0 \<le> x" "x \<le> 2 ^ 53"
  shows "floorDiv26 x = x div 26"
proof (cases "x div 26 \<le> 0")
  case True
  with assms have "x div 26 = 0" by (simp add: order_antisym pos_imp_zdiv_nonneg_iff)
  with True show ?thesis by (simp add: floorDiv26_def)
next
  case False
  let ?q = "x div 26"
  have "?q < 2 ^ 49" using assms by simp
  then have bl: "bitLength ?q \<le> 49" by (rule bitLength_le)
  let ?k = "53 - bitLength ?q"
  let ?s = "(2::int) ^ ?k"
  have k: "4 \<le> ?k" using bl by simp
  have "(2::int) ^ 4 \<le> 2 ^ ?k" using k by (intro power_increasing) simp_all
  then have s16: "16 \<le> ?s" by simp
  let ?N = "roundNearestEven (x * ?s) 26"
  have fd: "floorDiv26 x = ?N div ?s" using False bl by (simp add: floorDiv26_def)
  have xq: "26 * ?q \<le> x" "x \<le> 26 * ?q + 25"
    using div_mult_mod_eq [of x 26] pos_mod_bound [of 26 x] pos_mod_sign [of 26 x] by simp_all
  have lo1: "(26 * ?q) * ?s \<le> x * ?s" using xq(1) s16 by (intro mult_right_mono) simp_all
  have "?q * ?s = ((26 * ?q) * ?s) div 26" by simp
  also have "\<dots> \<le> (x * ?s) div 26" using lo1 by (intro zdiv_mono1) simp_all
  also have "\<dots> \<le> ?N" using roundNearestEven_bounds(1) [of 26 "x * ?s"] by simp
  finally have lo: "?q * ?s \<le> ?N" .
  have "52 * ?N \<le> 2 * (x * ?s) + 26" using roundNearestEven_bounds(2) [of 26 "x * ?s"] by simp
  moreover have "x * ?s \<le> (26 * ?q + 25) * ?s" using xq(2) s16 by (intro mult_right_mono) simp_all
  ultimately have "52 * ?N \<le> 2 * ((26 * ?q + 25) * ?s) + 26" by linarith
  also have "\<dots> = 52 * (?q * ?s) + 50 * ?s + 26" by (simp add: algebra_simps)
  also have "\<dots> < 52 * (?q * ?s) + 52 * ?s" using s16 by simp
  finally have "52 * ?N < 52 * ((?q + 1) * ?s)" by (simp add: algebra_simps)
  then have hi: "?N < (?q + 1) * ?s" by simp
  have "?N div ?s = ?q"
  proof (rule int_div_pos_eq [where r = "?N - ?q * ?s"])
    show "?N = ?s * ?q + (?N - ?q * ?s)" by (simp add: algebra_simps)
    show "0 \<le> ?N - ?q * ?s" using lo by simp
    show "?N - ?q * ?s < ?s" using hi by (simp add: algebra_simps)
  qed
  with fd show ?thesis by simp
qed

lemma step_exact:
  assumes "0 \<le> q" "0 \<le> m" "m < 26" "q * 26 + m + 1 \<le> 2 ^ 53"
  shows "numPlus (numTimes (Num q) 26) (charCodeAt (fromCharCode (65 + m)) - 64) = Num (q * 26 + m + 1)"
proof -
  have c: "charCodeAt (fromCharCode (65 + m)) = 65 + m"
    using assms(2,3) by (simp add: charCodeAt_def fromCharCode_def)
  have "\<bar>q * 26\<bar> \<le> 2 ^ 53" using assms by simp
  then have t: "numTimes (Num q) 26 = Num (q * 26)" by (simp add: roundToDouble_exact)
  have "\<bar>q * 26 + (65 + m - 64)\<bar> \<le> 2 ^ 53" using assms by simp
  then have "numPlus (Num (q * 26)) (65 + m - 64) = Num (q * 26 + (65 + m - 64))"
    by (simp only: numPlus.simps roundToDouble_exact)
  with t c show ?thesis by simp
qed

lemma getColumnLetter_loop_roundtrip:
  assumes "0 \<le> num" "num \<le> 2 ^ 53"
  shows "\<exists>s. getColumnLetter_loop num letter = Some s \<and>
           foldl (\<lambda>n c. numPlus (numTimes n 26) (charCodeAt c - 64)) (Num 0) s
             = foldl (\<lambda>n c. numPlus (numTimes n 26) (charCodeAt c - 64)) (Num num) letter"
  using assms
proof (induction "nat num" arbitrary: num letter rule: less_induct)
  case less
  show ?case
  proof (cases "num > 0")
    case False
    with less.prems have "num = 0" by simp
    then show ?thesis by (subst getColumnLetter_loop.simps) simp
  next
    case True
    let ?x = "num - 1"
    let ?m = "?x mod 26"
    let ?q = "?x div 26"
    let ?c = "fromCharCode (65 + ?m)"
    have rx: "roundInt ?x = ?x" using True less.prems by (intro roundInt_exact) simp
    have fq: "floorDiv26 ?x = ?q" using True less.prems by (intro floorDiv26_exact) simp_all
    have unfold: "getColumnLetter_loop num letter = getColumnLetter_loop ?q (?c # letter)"
      using True by (subst getColumnLetter_loop.simps) (simp add: rx fq)
    have q: "0 \<le> ?q" "?q \<le> 2 ^ 53" "nat ?q < nat num" using True less.prems by simp_all
    from less.hyps [OF q(3) q(1) q(2), of "?c # letter"] obtain s where
      s: "getColumnLetter_loop ?q (?c # letter) = Some s"
         "foldl (\<lambda>n c. numPlus (numTimes n 26) (charCodeAt c - 64)) (Num 0) s
            = foldl (\<lambda>n c. numPlus (numTimes n 26) (charCodeAt c - 64)) (Num ?q) (?c # letter)"
      by blast
    have eq: "?q * 26 + ?m + 1 = num" by simp
    have m: "0 \<le> ?m" "?m < 26" by simp_all
    have b: "?q * 26 + ?m + 1 \<le> 2 ^ 53" using less.prems by (simp only: eq)
    have "numPlus (numTimes (Num ?q) 26) (charCodeAt ?c - 64) = Num (?q * 26 + ?m + 1)"
      using q(1) m b by (rule step_exact)
    with eq have "numPlus (numTimes (Num ?q) 26) (charCodeAt ?c - 64) = Num num" by simp
    with s unfold show ?thesis by simp
  qed
qed

lemma getColumnLetter_spot:
  "getColumnLetter 1 = Some ''A'' \<and> getColumnLetter 26 = Some ''Z'' \<and>
   getColumnLetter 27 = Some ''AA'' \<and> getColumnLetter 52 = Some ''AZ'' \<and>
   getColumnLetter 702 = Some ''ZZ'' \<and> getColumnLetter 703 = Some ''AAA''"
  by code_simp

text \<open>
  Claim C1 says that for every integer \<open>n \<ge> 1\<close> the conversion of the column number
  to letters and back is the identity. The two functions compute in doubles: at the
  double \<open>2 ^ 53 + 2\<close> the difference \<open>num - 1\<close> is rounded to \<open>2 ^ 53\<close>, the
  letters are those of \<open>2 ^ 53\<close>, and the way back gives \<open>2 ^ 53\<close>.
\<close>

theorem column_roundtrip_counterexample:
  "roundInt (2 ^ 53 + 2) = 2 ^ 53 + 2 \<and>
   getColumnLetter (2 ^ 53 + 2) = Some ''BKTXHSOGHKKG'' \<and>
   columnToNumber ''BKTXHSOGHKKG'' = Num (2 ^ 53) \<and>
   (2::int) ^ 53 \<noteq> 2 ^ 53 + 2"
  by code_simp

text \<open>
  Claim C1, amended. For every integer \<open>n\<close> with \<open>1 \<le> n \<le> 2 ^ 53\<close>,
  \<open>getColumnLetter\<close> returns letters from which \<open>columnToNumber\<close> gives \<open>n\<close> again;
  the spot values are 1 to A, 26 to Z, 27 to AA, 52 to AZ, 702 to ZZ and 703 to AAA.
\<close>

theorem column_roundtrip:
  "1 \<le> n \<Longrightarrow> n \<le> 2 ^ 53 \<Longrightarrow>
     (\<exists>s. getColumnLetter n = Some s \<and> columnToNumber s = Num n) \<and>
     getColumnLetter 1 = Some ''A'' \<and> getColumnLetter 26 = Some ''Z'' \<and>
     getColumnLetter 27 = Some ''AA'' \<and> getColumnLetter 52 = Some ''AZ'' \<and>
     getColumnLetter 702 = Some ''ZZ'' \<and> getColumnLetter 703 = Some ''AAA''"
  using getColumnLetter_loop_roundtrip [of n "[]"] getColumnLetter_spot
  by (simp add: getColumnLetter_def columnToNumber_def)

theorem column_roundtrip_witness:
  "(1::int) \<le> 703 \<and> (703::int) \<le> 2 ^ 53 \<and>
   (\<exists>s. getColumnLetter 703 = Some s \<and> columnToNumber s = Num 703) \<and>
   getColumnLetter 703 = Some ''AAA''"
proof -
  have h: "(1::int) \<le> 703" "(703::int) \<le> 2 ^ 53" by simp_all
  from column_roundtrip [OF h] show ?thesis using h by blast
qed

section \<open>Decimal rendering, lower-casing and candidate names\<close>

lemma decimalValue_snoc: "decimalValue (ds @ [d]) = decimalValue ds * 10 + (charCodeAt d - 48)"
  by (simp add: decimalValue_def)

lemma charCodeAt_digit: "d < 10 \<Longrightarrow> charCodeAt (char_of (48 + d)) = 48 + int d"
  by (simp add: charCodeAt_def)

lemma decimalValue_numberToString: "decimalValue (numberToString n) = int n"
proof (induction n rule: numberToString.induct)
  case (1 n)
  show ?case
  proof (cases "n < 10")
    case True
    then show ?thesis
      by (subst numberToString.simps) (simp add: decimalValue_def charCodeAt_digit)
  next
    case False
    have "decimalValue (numberToString n)
            = decimalValue (numberToString (n div 10)) * 10 + int (n mod 10)"
      using False by (subst numberToString.simps) (simp add: decimalValue_snoc charCodeAt_digit)
    also have "\<dots> = int (n div 10) * 10 + int (n mod 10)"
      using "1.IH" [OF False] by simp
    also have "\<dots> = int n" by (simp add: zdiv_int zmod_int)
    finally show ?thesis .
  qed
qed

lemma numberToString_inject: "numberToString m = numberToString n \<Longrightarrow> m = n"
proof -
  assume "numberToString m = numberToString n"
  then have "decimalValue (numberToString m) = decimalValue (numberToString n)" by (rule arg_cong)
  then show "m = n" by (simp only: decimalValue_numberToString of_nat_eq_iff)
qed

lemma toLowerCaseChar_digit:
  "(d::nat) < 10 \<Longrightarrow> toLowerCaseChar (char_of (48 + d)) = char_of (48 + d)"
  by (simp add: toLowerCaseChar_def)

lemma toLowerCase_numberToString: "toLowerCase (numberToString n) = numberToString n"
proof (induction n rule: numberToString.induct)
  case (1 n)
  show ?case
  proof (cases "n < 10")
    case True
    then show ?thesis
      by (subst (1 2) numberToString.simps) (simp add: toLowerCase_def toLowerCaseChar_digit)
  next
    case False
    then show ?thesis
      using "1.IH" [OF False]
      by (subst (1 2) numberToString.simps) (simp add: toLowerCase_def toLowerCaseChar_digit)
  qed
qed

lemma toLowerCase_candidateName:
  "toLowerCase (candidateName baseName k) = toLowerCase baseName @ '' ('' @ numberToString k @ '')''"
proof -
  have "toLowerCase (candidateName baseName k)
      = toLowerCase baseName @ toLowerCase '' ('' @ toLowerCase (numberToString k) @ toLowerCase '')''"
    by (simp add: candidateName_def toLowerCase_def)
  moreover have "toLowerCase '' ('' = '' (''" "toLowerCase '')'' = '')''"
    by (simp_all add: toLowerCase_def toLowerCaseChar_def)
  ultimately show ?thesis by (simp add: toLowerCase_numberToString)
qed

lemma candidateName_inject:
  "toLowerCase (candidateName baseName j) = toLowerCase (candidateName baseName k) \<Longrightarrow> j = k"
  by (simp add: toLowerCase_candidateName numberToString_inject)

lemma loop_finds:
  "c \<le> k \<Longrightarrow> toLowerCase (candidateName b k) \<notin> E \<Longrightarrow>
   (\<forall>j. c \<le> j \<and> j < k \<longrightarrow> toLowerCase (candidateName b j) \<in> E) \<Longrightarrow>
   generateUniqueSheetName_loop E b c = Some k"
proof (induction "k - c" arbitrary: c)
  case 0
  then have "c = k" by simp
  with 0 show ?case by (subst generateUniqueSheetName_loop.simps) simp
next
  case (Suc d)
  then have lt: "c < k" by simp
  with Suc.prems have inE: "toLowerCase (candidateName b c) \<in> E" by simp
  have "generateUniqueSheetName_loop E b (c + 1) = Some k"
    using Suc lt by (intro Suc.hyps(1)) auto
  with inE show ?case by (subst generateUniqueSheetName_loop.simps) simp
qed

lemma unused_candidate_exists:
  assumes "finite E"
  shows "\<exists>k\<ge>c. toLowerCase (candidateName b k) \<notin> E"
proof (rule ccontr)
  assume "\<not> ?thesis"
  then have sub: "(\<lambda>k. toLowerCase (candidateName b k)) ` {c..} \<subseteq> E" by auto
  have "inj_on (\<lambda>k. toLowerCase (candidateName b k)) {c..}"
    by (rule inj_onI) (rule candidateName_inject)
  with sub assms have "finite {c..}"
    using finite_imageD finite_subset by blast
  then show False by (simp add: infinite_Ici)
qed

lemma first_unused_candidate:
  assumes "finite E"
  shows "\<exists>k\<ge>c. toLowerCase (candidateName b k) \<notin> E \<and>
           (\<forall>j. c \<le> j \<and> j < k \<longrightarrow> toLowerCase (candidateName b j) \<in> E)"
proof -
  let ?P = "\<lambda>k. c \<le> k \<and> toLowerCase (candidateName b k) \<notin> E"
  from unused_candidate_exists [OF assms] obtain k0 where "?P k0" by blast
  then have L: "?P (LEAST k. ?P k)" by (rule LeastI)
  have "\<forall>j. c \<le> j \<and> j < (LEAST k. ?P k) \<longrightarrow> toLowerCase (candidateName b j) \<in> E"
    using not_less_Least [of _ ?P] by blast
  with L show ?thesis by blast
qed

section \<open>Unique sheet names\<close>

lemma sync_queue_ok:
  "hostSync host (hostState ctx) (pending ctx @ [cmd]) = (None, h') \<Longrightarrow>
   sync host (queue cmd ctx) =
     Returns () \<lparr>hostState = h', pending = [], synced = synced ctx @ [pending ctx @ [cmd]]\<rparr>"
  by (simp add: sync_def queue_def)

lemma sync_queue_fail:
  "hostSync host (hostState ctx) (pending ctx @ [cmd]) = (Some e, h') \<Longrightarrow>
   sync host (queue cmd ctx) =
     Throws e \<lparr>hostState = h', pending = [], synced = synced ctx @ [pending ctx @ [cmd]]\<rparr>"
  by (simp add: sync_def queue_def)


lemma loop_returns:
  assumes "finite E"
  shows "\<exists>k\<ge>c. generateUniqueSheetName_loop E b c = Some k \<and>
           toLowerCase (candidateName b k) \<notin> E \<and>
           (\<forall>j. c \<le> j \<and> j < k \<longrightarrow> toLowerCase (candidateName b j) \<in> E)"
proof -
  from first_unused_candidate [OF assms, of c b] obtain k where
    k: "c \<le> k" "toLowerCase (candidateName b k) \<notin> E"
       "\<forall>j. c \<le> j \<and> j < k \<longrightarrow> toLowerCase (candidateName b j) \<in> E"
    by blast
  from loop_finds [OF k] k show ?thesis by blast
qed

lemma generateUniqueSheetName_after_sync:
  assumes "hostSync host (hostState ctx) (pending ctx @ [LoadSheetNames]) = (None, h')"
  shows "generateUniqueSheetName host ctx baseName =
     (let existingNames = set (map toLowerCase (sheetNames host h'));
          ctx' = \<lparr>hostState = h', pending = [], synced = synced ctx @ [pending ctx @ [LoadSheetNames]]\<rparr>
      in if toLowerCase baseName \<notin> existingNames then Returns baseName ctx'
         else case generateUniqueSheetName_loop existingNames baseName 2 of
                None \<Rightarrow> Diverges
              | Some counter \<Rightarrow> Returns (candidateName baseName counter) ctx')"
  by (simp add: generateUniqueSheetName_def sync_queue_ok [OF assms] await_def Let_def)

text \<open>
  Claim C5. For every base name and every list of existing sheet names that the host
  reports, \<open>generateUniqueSheetName\<close> returns the base name unchanged when no existing
  name equals it after lower-casing both; otherwise it returns the candidate
  "base (k)" for the smallest \<open>k \<ge> 2\<close> whose lower-cased candidate is not among the
  lower-cased existing names. Against the names Backup and Backup (2) the base name
  Backup gives Backup (3); against no names it gives Backup.
\<close>

theorem generateUniqueSheetName_result:
  assumes "hostSync host (hostState ctx) (pending ctx @ [LoadSheetNames]) = (None, h')"
  shows
    "(toLowerCase baseName \<notin> set (map toLowerCase (sheetNames host h')) \<longrightarrow>
        generateUniqueSheetName host ctx baseName =
          Returns baseName
            \<lparr>hostState = h', pending = [], synced = synced ctx @ [pending ctx @ [LoadSheetNames]]\<rparr>) \<and>
     (toLowerCase baseName \<in> set (map toLowerCase (sheetNames host h')) \<longrightarrow>
        (\<exists>k\<ge>2.
           generateUniqueSheetName host ctx baseName =
             Returns (candidateName baseName k)
               \<lparr>hostState = h', pending = [], synced = synced ctx @ [pending ctx @ [LoadSheetNames]]\<rparr> \<and>
           toLowerCase (candidateName baseName k) \<notin> set (map toLowerCase (sheetNames host h')) \<and>
           (\<forall>j. 2 \<le> j \<and> j < k \<longrightarrow>
              toLowerCase (candidateName baseName j) \<in> set (map toLowerCase (sheetNames host h'))))) \<and>
     generateUniqueSheetName (testHost emptySelection ''Sheet1'' 0 neverFails)
         \<lparr>hostState = [''Backup'', ''Backup (2)''], pending = [], synced = []\<rparr> ''Backup'' =
       Returns ''Backup (3)''
         \<lparr>hostState = [''Backup'', ''Backup (2)''], pending = [], synced = [[LoadSheetNames]]\<rparr> \<and>
     generateUniqueSheetName (testHost emptySelection ''Sheet1'' 0 neverFails)
         \<lparr>hostState = [], pending = [], synced = []\<rparr> ''Backup'' =
       Returns ''Backup'' \<lparr>hostState = [], pending = [], synced = [[LoadSheetNames]]\<rparr>"
proof (intro conjI impI)
  assume "toLowerCase baseName \<notin> set (map toLowerCase (sheetNames host h'))"
  then show "generateUniqueSheetName host ctx baseName =
          Returns baseName
            \<lparr>hostState = h', pending = [], synced = synced ctx @ [pending ctx @ [LoadSheetNames]]\<rparr>"
    by (simp add: generateUniqueSheetName_after_sync [OF assms])
next
  let ?E = "set (map toLowerCase (sheetNames host h'))"
  assume used: "toLowerCase baseName \<in> ?E"
  have "finite ?E" by simp
  from loop_returns [OF this, of 2 baseName] obtain k where
    k: "2 \<le> k" "generateUniqueSheetName_loop ?E baseName 2 = Some k"
       "toLowerCase (candidateName baseName k) \<notin> ?E"
       "\<forall>j. 2 \<le> j \<and> j < k \<longrightarrow> toLowerCase (candidateName baseName j) \<in> ?E"
    by blast
  have "generateUniqueSheetName host ctx baseName =
          Returns (candidateName baseName k)
            \<lparr>hostState = h', pending = [], synced = synced ctx @ [pending ctx @ [LoadSheetNames]]\<rparr>"
    using used k(2) by (simp add: generateUniqueSheetName_after_sync [OF assms])
  with k show "\<exists>k\<ge>2.
           generateUniqueSheetName host ctx baseName =
             Returns (candidateName baseName k)
               \<lparr>hostState = h', pending = [], synced = synced ctx @ [pending ctx @ [LoadSheetNames]]\<rparr> \<and>
           toLowerCase (candidateName baseName k) \<notin> ?E \<and>
           (\<forall>j. 2 \<le> j \<and> j < k \<longrightarrow> toLowerCase (candidateName baseName j) \<in> ?E)"
    by blast
next
  show "generateUniqueSheetName (testHost emptySelection ''Sheet1'' 0 neverFails)
         \<lparr>hostState = [''Backup'', ''Backup (2)''], pending = [], synced = []\<rparr> ''Backup'' =
       Returns ''Backup (3)''
         \<lparr>hostState = [''Backup'', ''Backup (2)''], pending = [], synced = [[LoadSheetNames]]\<rparr>"
    by code_simp
next
  show "generateUniqueSheetName (testHost emptySelection ''Sheet1'' 0 neverFails)
         \<lparr>hostState = [], pending = [], synced = []\<rparr> ''Backup'' =
       Returns ''Backup'' \<lparr>hostState = [], pending = [], synced = [[LoadSheetNames]]\<rparr>"
    by code_simp
qed

theorem generateUniqueSheetName_result_witness:
  "hostSync (testHost emptySelection ''Sheet1'' 0 neverFails) [''Backup'', ''Backup (2)'']
       ([] @ [LoadSheetNames]) = (None, [''Backup'', ''Backup (2)'']) \<and>
   (\<exists>k\<ge>2.
      generateUniqueSheetName (testHost emptySelection ''Sheet1'' 0 neverFails)
          \<lparr>hostState = [''Backup'', ''Backup (2)''], pending = [], synced = []\<rparr> ''Backup'' =
        Returns (candidateName ''Backup'' k)
          \<lparr>hostState = [''Backup'', ''Backup (2)''], pending = [], synced = [[LoadSheetNames]]\<rparr>)"
proof -
  let ?H = "testHost emptySelection ''Sheet1'' 0 neverFails"
  let ?c = "\<lparr>hostState = [''Backup'', ''Backup (2)''], pending = [], synced = []\<rparr>"
  have h: "hostSync ?H (hostState ?c) (pending ?c @ [LoadSheetNames]) = (None, [''Backup'', ''Backup (2)''])"
    by (simp add: testHost_def neverFails_def)
  have u: "toLowerCase ''Backup'' \<in> set (map toLowerCase (sheetNames ?H [''Backup'', ''Backup (2)'']))"
    by (simp add: testHost_def toLowerCase_def)
  from generateUniqueSheetName_result [OF h, of "''Backup''"] u
  have "\<exists>k\<ge>2. generateUniqueSheetName ?H ?c ''Backup'' =
          Returns (candidateName ''Backup'' k)
            \<lparr>hostState = [''Backup'', ''Backup (2)''], pending = [],
               synced = synced ?c @ [pending ?c @ [LoadSheetNames]]\<rparr>"
    by blast
  with h show ?thesis by simp
qed

text \<open>
  Claim C6. Unique-name generation terminates with an unused name: against a finite set
  of existing names the probing loop, from every start, returns a counter whose
  candidate is not in use, every counter it passed being in use, after at most as many
  increments as there are existing names. \<open>generateUniqueSheetName\<close> itself never
  diverges (it returns, or throws what the host's sync threw), and the name it returns
  is not among the sheet names the host reported, compared in lower case.
\<close>

theorem generateUniqueSheetName_terminates:
  assumes "finite existingNames"
  shows "(\<exists>k\<ge>counter.
            generateUniqueSheetName_loop existingNames baseName counter = Some k \<and>
            toLowerCase (candidateName baseName k) \<notin> existingNames \<and>
            (\<forall>j. counter \<le> j \<and> j < k \<longrightarrow> toLowerCase (candidateName baseName j) \<in> existingNames) \<and>
            k \<le> counter + card existingNames) \<and>
         generateUniqueSheetName host ctx baseName \<noteq> Diverges \<and>
         (\<forall>nm c. generateUniqueSheetName host ctx baseName = Returns nm c \<longrightarrow>
            toLowerCase nm \<notin> set (map toLowerCase (sheetNames host (hostState c))))"
proof (intro conjI allI impI)
  from loop_returns [OF assms, of counter baseName] obtain k where
    k: "counter \<le> k" "generateUniqueSheetName_loop existingNames baseName counter = Some k"
       "toLowerCase (candidateName baseName k) \<notin> existingNames"
       "\<forall>j. counter \<le> j \<and> j < k \<longrightarrow> toLowerCase (candidateName baseName j) \<in> existingNames"
    by blast
  have "inj_on (\<lambda>j. toLowerCase (candidateName baseName j)) {counter..<k}"
    by (rule inj_onI) (rule candidateName_inject)
  moreover have "(\<lambda>j. toLowerCase (candidateName baseName j)) ` {counter..<k} \<subseteq> existingNames"
    using k(4) by auto
  ultimately have "card {counter..<k} \<le> card existingNames"
    using assms by (rule card_inj_on_le)
  then have "k \<le> counter + card existingNames" by simp
  with k show "\<exists>k\<ge>counter.
            generateUniqueSheetName_loop existingNames baseName counter = Some k \<and>
            toLowerCase (candidateName baseName k) \<notin> existingNames \<and>
            (\<forall>j. counter \<le> j \<and> j < k \<longrightarrow> toLowerCase (candidateName baseName j) \<in> existingNames) \<and>
            k \<le> counter + card existingNames"
    by blast
next
  obtain r h' where r: "hostSync host (hostState ctx) (pending ctx @ [LoadSheetNames]) = (r, h')"
    by (cases "hostSync host (hostState ctx) (pending ctx @ [LoadSheetNames])")
  show "generateUniqueSheetName host ctx baseName \<noteq> Diverges"
  proof (cases r)
    case None
    let ?E = "set (map toLowerCase (sheetNames host h'))"
    have "finite ?E" by simp
    from loop_returns [OF this, of 2 baseName] obtain k where
      "generateUniqueSheetName_loop ?E baseName 2 = Some k" by blast
    then show ?thesis
      using r None by (simp add: generateUniqueSheetName_after_sync Let_def)
  next
    case (Some e)
    with r show ?thesis
      by (simp add: generateUniqueSheetName_def sync_queue_fail await_def)
  qed
next
  fix nm c
  assume ret: "generateUniqueSheetName host ctx baseName = Returns nm c"
  obtain r h' where r: "hostSync host (hostState ctx) (pending ctx @ [LoadSheetNames]) = (r, h')"
    by (cases "hostSync host (hostState ctx) (pending ctx @ [LoadSheetNames])")
  show "toLowerCase nm \<notin> set (map toLowerCase (sheetNames host (hostState c)))"
  proof (cases r)
    case (Some e)
    with r ret show ?thesis
      by (simp add: generateUniqueSheetName_def sync_queue_fail await_def)
  next
    case None
    let ?E = "set (map toLowerCase (sheetNames host h'))"
    have "finite ?E" by simp
    from loop_returns [OF this, of 2 baseName] obtain k where
      k: "generateUniqueSheetName_loop ?E baseName 2 = Some k"
         "toLowerCase (candidateName baseName k) \<notin> ?E"
      by blast
    from r None have sy: "hostSync host (hostState ctx) (pending ctx @ [LoadSheetNames]) = (None, h')"
      by simp
    show ?thesis
    proof (cases "toLowerCase baseName \<in> ?E")
      case True
      with ret k show ?thesis
        by (auto simp: generateUniqueSheetName_after_sync [OF sy] Let_def)
    next
      case False
      with ret show ?thesis
        by (auto simp: generateUniqueSheetName_after_sync [OF sy] Let_def)
    qed
  qed
qed

theorem generateUniqueSheetName_terminates_witness:
  "finite {''backup'', ''backup (2)''} \<and>
   (\<exists>k\<ge>2. generateUniqueSheetName_loop {''backup'', ''backup (2)''} ''Backup'' 2 = Some k \<and>
           toLowerCase (candidateName ''Backup'' k) \<notin> {''backup'', ''backup (2)''} \<and>
           k \<le> 2 + card {''backup'', ''backup (2)''}) \<and>
   generateUniqueSheetName (testHost emptySelection ''Sheet1'' 0 neverFails)
       \<lparr>hostState = [''Backup'', ''Backup (2)''], pending = [], synced = []\<rparr> ''Backup'' \<noteq> Diverges"
proof -
  have f: "finite {''backup'', ''backup (2)''}" by simp
  from generateUniqueSheetName_terminates [OF f] f show ?thesis by blast
qed

section \<open>Paste and sheet creation\<close>

lemma sync_queue_trace:
  "batchesOf ((sync host (queue cmd ctx))) = Some (synced ctx @ [pending ctx @ [cmd]])"
  by (simp add: sync_def queue_def batchesOf_def queuedOf_def split: prod.splits option.splits)




text \<open>
  Claim C10. Calling \<open>pasteRange\<close> with the empty string as target address is the same
  as calling it with no target address: the fallback tests the argument's truthiness,
  so the paste goes to the captured range's own address.
\<close>

theorem pasteRange_empty_target:
  "pasteRange host ctx cap sheet (Some []) valuesOnlyArg =
     pasteRange host ctx cap sheet None valuesOnlyArg \<and>
   batchesOf ((pasteRange host ctx cap sheet (Some []) valuesOnlyArg)) =
     Some (synced ctx @
       [pending ctx @
         [if valuesOnlyArg = Some True then SetValues sheet (address cap) (values' cap)
          else SetFormulas sheet (address cap) (formulas cap)]])"
  by (cases valuesOnlyArg) (simp_all add: pasteRange_def Let_def sync_queue_trace)

theorem pasteRange_empty_target_witness:
  "batchesOf ((pasteRange (testHost selectionB2C3 ''Data'' 0 neverFails)
       \<lparr>hostState = [''Data''], pending = [], synced = []\<rparr>
       \<lparr>address = ''B2:C3'', sourceSheet = ''Data'', values' = [[CellNumber 20, CellString ''x'']],
          formulas = [[''=A1*2'', []]], rowCount = 1, columnCount = 2\<rparr>
       ActiveWorksheet (Some []) None)) =
     Some [[SetFormulas ActiveWorksheet ''B2:C3'' [[''=A1*2'', []]]]]"
  using pasteRange_empty_target
    [of "testHost selectionB2C3 ''Data'' 0 neverFails"
        "\<lparr>hostState = [''Data''], pending = [], synced = []\<rparr>"
        "\<lparr>address = ''B2:C3'', sourceSheet = ''Data'', values' = [[CellNumber 20, CellString ''x'']],
          formulas = [[''=A1*2'', []]], rowCount = 1, columnCount = 2\<rparr>"
        ActiveWorksheet None, THEN conjunct2]
  by simp



section \<open>Composed automations: running to success\<close>



lemma sync_Returns:
  "sync host ctx = Returns u c \<Longrightarrow>
     (pending ctx = [] \<and> c = ctx) \<or>
     (pending ctx \<noteq> [] \<and>
      hostSync host (hostState ctx) (pending ctx) = (None, hostState c) \<and>
      c = \<lparr>hostState = hostState c, pending = [], synced = synced ctx @ [pending ctx]\<rparr>)"
  by (auto simp: sync_def split: if_splits prod.splits option.splits)










section \<open>Composed automations: degenerate selections and errors\<close>

text \<open>
  Claim C4 says that both composed automations return a failure on a degenerate
  selection, and that the failure message of \<open>copySelectionToNewSheet\<close> is
  "no cells selected". On a host whose selection has no rows and no columns, and whose
  syncs all succeed, \<open>duplicateSelection\<close> captures that selection, pastes the empty
  grid and returns success; \<open>copySelectionToNewSheet\<close> returns a failure whose message
  is "No cells selected", with a capital N.
\<close>

theorem degenerate_selection_counterexample:
  "captureSelection (testHost emptySelection ''Data'' 0 neverFails)
       \<lparr>hostState = [''Data''], pending = [], synced = []\<rparr> =
     Returns
       \<lparr>address = ''A1'', sourceSheet = ''Data'', values' = [], formulas = [],
        rowCount = 0, columnCount = 0\<rparr>
       \<lparr>hostState = [''Data''], pending = [],
        synced = [[LoadSelectedRange, LoadSheetName ActiveWorksheet]]\<rparr> \<and>
   duplicateSelection (testHost emptySelection ''Data'' 0 neverFails) [''Data''] ''D5'' None =
     Returns
       \<lparr>success = True,
        data = Some \<lparr>sourceAddress = ''A1'', targetAddress = ''D5''\<rparr>,
        error = None\<rparr>
       \<lparr>hostState = [''Data''], pending = [],
        synced = [[LoadSelectedRange, LoadSheetName ActiveWorksheet],
                  [SetFormulas ActiveWorksheet ''D5'' []]]\<rparr> \<and>
   copySelectionToNewSheet (testHost emptySelection ''Data'' 0 neverFails) [''Data'']
       \<lparr>sheetName = None, valuesOnly = None, activateNewSheet = None\<rparr> =
     Returns
       \<lparr>success = False, data = None, error = Some ''No cells selected''\<rparr>
       \<lparr>hostState = [''Data''], pending = [],
        synced = [[LoadSelectedRange, LoadSheetName ActiveWorksheet]]\<rparr> \<and>
   ''No cells selected'' \<noteq> ''no cells selected''"
  by code_simp

text \<open>
  Claim C4, amended. When the capture has synced and the captured selection has zero
  rows or zero columns, \<open>copySelectionToNewSheet\<close> returns the failure result with the
  message "No cells selected", and the capture is the only batch it has handed to the
  host: no sheet is created.
\<close>

theorem copySelectionToNewSheet_empty_selection:
  assumes "hostSync host h0 [LoadSelectedRange, LoadSheetName ActiveWorksheet] = (None, h1)"
    and "rangeRowCount (selectedRange host h1) = 0 \<or> rangeColumnCount (selectedRange host h1) = 0"
  shows "copySelectionToNewSheet host h0 opts =
           Returns \<lparr>success = False, data = None, error = Some ''No cells selected''\<rparr>
             \<lparr>hostState = h1, pending = [],
              synced = [[LoadSelectedRange, LoadSheetName ActiveWorksheet]]\<rparr>"
proof -
  let ?init = "\<lparr>hostState = h0, pending = [], synced = []\<rparr>"
  let ?c1 = "\<lparr>hostState = h1, pending = [],
              synced = [[LoadSelectedRange, LoadSheetName ActiveWorksheet]]\<rparr>"
  have cs: "captureSelection host ?init =
      Returns \<lparr>address = addressOnly (rangeAddress (selectedRange host h1)),
               sourceSheet = activeSheetName host h1,
               values' = rangeValues (selectedRange host h1),
               formulas = rangeFormulas (selectedRange host h1),
               rowCount = rangeRowCount (selectedRange host h1),
               columnCount = rangeColumnCount (selectedRange host h1)\<rparr> ?c1"
    using assms(1) by (simp add: captureSelection_def sync_def queue_def await_def Let_def)
  have "copySelectionToNewSheet_batch host opts ?init =
          Returns \<lparr>success = False, data = None, error = Some ''No cells selected''\<rparr> ?c1"
    using assms(2) by (simp add: copySelectionToNewSheet_batch_def cs await_def)
  then show ?thesis
    by (simp add: copySelectionToNewSheet_def excelRun_def await_def sync_def catchToResult_def)
qed

theorem copySelectionToNewSheet_empty_selection_witness:
  "hostSync (testHost emptySelection ''Data'' 0 neverFails) [''Data'']
       [LoadSelectedRange, LoadSheetName ActiveWorksheet] = (None, [''Data'']) \<and>
   rangeRowCount (selectedRange (testHost emptySelection ''Data'' 0 neverFails) [''Data'']) = 0 \<and>
   copySelectionToNewSheet (testHost emptySelection ''Data'' 0 neverFails) [''Data'']
       \<lparr>sheetName = Some ''Backup'', valuesOnly = None, activateNewSheet = None\<rparr> =
     Returns \<lparr>success = False, data = None, error = Some ''No cells selected''\<rparr>
       \<lparr>hostState = [''Data''], pending = [],
        synced = [[LoadSelectedRange, LoadSheetName ActiveWorksheet]]\<rparr>"
proof -
  let ?H = "testHost emptySelection ''Data'' 0 neverFails"
  have h: "hostSync ?H [''Data''] [LoadSelectedRange, LoadSheetName ActiveWorksheet] = (None, [''Data''])"
    by (simp add: testHost_def neverFails_def)
  have z: "rangeRowCount (selectedRange ?H [''Data'']) = 0"
    by (simp add: testHost_def emptySelection_def)
  then have z': "rangeRowCount (selectedRange ?H [''Data'']) = 0 \<or>
                 rangeColumnCount (selectedRange ?H [''Data'']) = 0" ..
  from copySelectionToNewSheet_empty_selection [OF h z'] h z show ?thesis by blast
qed



























section \<open>Parsing the start cell\<close>

lemma firstMatch_none:
  assumes "\<forall>c\<in>set s. \<not> cls c"
  shows "firstMatch cls s = None"
proof -
  from assms have d: "dropWhile (\<lambda>c. \<not> cls c) s = []" by simp
  show ?thesis unfolding firstMatch_def Let_def d by simp
qed

lemma firstMatch_run:
  assumes pre: "\<forall>c\<in>set pre. \<not> cls c"
    and run: "run \<noteq> []" "\<forall>c\<in>set run. cls c"
    and post: "post = [] \<or> \<not> cls (hd post)"
  shows "firstMatch cls (pre @ run @ post) = Some run"
proof -
  from run obtain x xs where x: "run = x # xs" "cls x" by (cases run) auto
  have "dropWhile (\<lambda>c. \<not> cls c) (pre @ run @ post) = dropWhile (\<lambda>c. \<not> cls c) (run @ post)"
    using pre by simp
  also have "\<dots> = run @ post" using x by simp
  finally have d: "dropWhile (\<lambda>c. \<not> cls c) (pre @ run @ post) = run @ post" .
  have "takeWhile cls (run @ post) = run @ takeWhile cls post"
    using run(2) by simp
  also have "takeWhile cls post = []" using post by (cases post) auto
  finally have t: "takeWhile cls (run @ post) = run" by simp
  show ?thesis using run(1) by (simp add: firstMatch_def Let_def d t)
qed

lemma parseInt_numberToString:
  assumes "int n \<le> 2 ^ 53"
  shows "parseInt (numberToString n) = Num (int n)"
proof -
  have "\<bar>int n\<bar> \<le> 2 ^ 53" using assms by simp
  then show ?thesis
    by (simp only: parseInt_def decimalValue_numberToString roundToDouble_exact)
qed

text \<open>
  Claim C9 says that parsing a cell reference fails with a ParseError when the letter
  run or the digit run is absent, or when the reference has extra characters. The
  parsing in \<open>extractSelectionData\<close> has no failure: a reference without letters gets
  column A, one without digits gets row 1, and extra characters are skipped.
\<close>

theorem startCell_parse_counterexample:
  "startCol ''10'' = ''A'' \<and> startRow ''10'' = Num 10 \<and>
   startCol ''C'' = ''C'' \<and> startRow ''C'' = Num 1 \<and>
   startCol ''$C$10x'' = ''C'' \<and> startRow ''$C$10x'' = Num 10 \<and>
   startCol [] = ''A'' \<and> startRow [] = Num 1"
  by code_simp

text \<open>
  Claim C9, amended. The start-cell parsing of \<open>extractSelectionData\<close> never fails, on
  any reference. The column is the first run of capital letters A to Z: the run that
  follows the longest prefix without a capital and ends before the first character that
  is not a capital; a reference without a capital gets the column "A". The row is
  \<open>parseInt\<close> of the first run of digits, found in the same way and independently of
  the letters; a reference without a digit gets the row 1. On the decimal rendering of
  a number up to \<open>2 ^ 53\<close>, \<open>parseInt\<close> gives that number. Characters outside the two
  runs are ignored.
\<close>

theorem startCell_parse:
  "((\<forall>c\<in>set pre. \<not> isUpperAZ c) \<and> ls \<noteq> [] \<and> (\<forall>c\<in>set ls. isUpperAZ c) \<and>
       (rest = [] \<or> isUpperAZ (hd rest) = False) \<longrightarrow>
     startCol (pre @ ls @ rest) = ls) \<and>
   ((\<forall>c\<in>set pre'. \<not> isDigit c) \<and> ds \<noteq> [] \<and> (\<forall>c\<in>set ds. isDigit c) \<and>
       (rest' = [] \<or> isDigit (hd rest') = False) \<longrightarrow>
     startRow (pre' @ ds @ rest') = parseInt ds) \<and>
   (int n \<le> 2 ^ 53 \<longrightarrow> parseInt (numberToString n) = Num (int n)) \<and>
   ((\<forall>c\<in>set s. \<not> isUpperAZ c) \<longrightarrow> startCol s = ''A'') \<and>
   ((\<forall>c\<in>set s. \<not> isDigit c) \<longrightarrow> startRow s = Num 1)"
proof (intro conjI impI)
  assume a: "(\<forall>c\<in>set pre. \<not> isUpperAZ c) \<and> ls \<noteq> [] \<and> (\<forall>c\<in>set ls. isUpperAZ c) \<and>
       (rest = [] \<or> isUpperAZ (hd rest) = False)"
  then have "firstMatch isUpperAZ (pre @ ls @ rest) = Some ls"
    by (intro firstMatch_run) simp_all
  then show "startCol (pre @ ls @ rest) = ls" by (simp add: startCol_def)
next
  assume a: "(\<forall>c\<in>set pre'. \<not> isDigit c) \<and> ds \<noteq> [] \<and> (\<forall>c\<in>set ds. isDigit c) \<and>
       (rest' = [] \<or> isDigit (hd rest') = False)"
  then have "firstMatch isDigit (pre' @ ds @ rest') = Some ds"
    by (intro firstMatch_run) simp_all
  then show "startRow (pre' @ ds @ rest') = parseInt ds" by (simp add: startRow_def)
next
  assume "int n \<le> 2 ^ 53"
  then show "parseInt (numberToString n) = Num (int n)" by (rule parseInt_numberToString)
next
  assume "\<forall>c\<in>set s. \<not> isUpperAZ c"
  then show "startCol s = ''A''" by (simp add: startCol_def firstMatch_none)
next
  assume "\<forall>c\<in>set s. \<not> isDigit c"
  then have "firstMatch isDigit s = None" by (rule firstMatch_none)
  moreover have "parseInt ''1'' = Num 1" by code_simp
  ultimately show "startRow s = Num 1" by (simp add: startRow_def)
qed

theorem startCell_parse_witness:
  "startCol ''$C$10'' = ''C'' \<and> startRow ''$C$10'' = Num 10 \<and>
   startCol ''12AB34'' = ''AB'' \<and> startRow ''12AB34'' = Num 12"
proof -
  have up: "isUpperAZ CHR ''C''" "isUpperAZ CHR ''A''" "isUpperAZ CHR ''B''"
    "\<not> isUpperAZ CHR ''$''" "\<not> isUpperAZ CHR ''1''" "\<not> isUpperAZ CHR ''2''"
    "\<not> isUpperAZ CHR ''3''"
    by (simp_all add: isUpperAZ_def charCodeAt_def)
  have dg: "isDigit CHR ''1''" "isDigit CHR ''0''" "isDigit CHR ''2''"
    "\<not> isDigit CHR ''$''" "\<not> isDigit CHR ''C''" "\<not> isDigit CHR ''A''"
    by (simp_all add: isDigit_def charCodeAt_def)
  have p10: "parseInt ''10'' = Num 10" and p12: "parseInt ''12'' = Num 12" by code_simp+
  have c1: "startCol (''$'' @ ''C'' @ ''$10'') = ''C''"
    using startCell_parse [of "''$''" "''C''" "''$10''", THEN conjunct1] up by simp
  have r1: "startRow (''$C$'' @ ''10'' @ []) = parseInt ''10''"
    using startCell_parse [of _ _ _ "''$C$''" "''10''" "[]", THEN conjunct2, THEN conjunct1] dg
    by simp
  have c2: "startCol (''12'' @ ''AB'' @ ''34'') = ''AB''"
    using startCell_parse [of "''12''" "''AB''" "''34''", THEN conjunct1] up by simp
  have r2: "startRow ([] @ ''12'' @ ''AB34'') = parseInt ''12''"
    using startCell_parse [of _ _ _ "[]" "''12''" "''AB34''", THEN conjunct2, THEN conjunct1] dg
    by simp
  from c1 r1 c2 r2 p10 p12 show ?thesis by simp
qed

end
